theory Spec2Isabelle
  imports Complex_Main "HOL-Library.Multiset"
begin

section \<open>Python values, exceptions and library functions\<close>

text \<open>
  The three services are Python. Exceptions are values of \<open>py_error\<close>; a call that may
  raise returns \<open>py_error + 'a\<close> with \<open>Inl\<close> for the exception. A method that mutates
  its object and may raise half-way returns the mutated object together with
  \<open>py_error option\<close>, because in Python the mutation done before the raise stays.

  A Python float is modelled as the real number it stands for, for float64 and float32
  alike; \<open>inf\<close> and \<open>nan\<close> are outside the model. Comparisons of floats are exact. The
  arithmetic of the featurizer on floats rounds, so it goes through the library:
  \<open>fadd\<close>, \<open>fsub\<close> and \<open>fdiv\<close> are \<open>+\<close>, \<open>-\<close> and \<open>/\<close> on float64 and \<open>fsum\<close> is the
  built-in \<open>sum\<close> on a list of floats. Naive datetimes are modelled as an integer
  number of microseconds, so \<open>timedelta(seconds=n)\<close> is \<open>n * 1000000\<close>.

  Library functions whose full definition is not part of the repository are fields of
  \<open>pylib\<close>. The general theorems hold for every such library; the examples use the
  library \<open>lib0\<close>, which gives the values of these functions at the strings of the
  examples.
\<close>

datatype py_error =
  KeyError | ValueError | TypeError | AttributeError | UnicodeDecodeError
  | OSError | ArrowError | RedisError | ModelError

datatype pyval = PStr string | PFloat real | PInt int | PNone

record pylib =
  float_of_str :: "string \<Rightarrow> real option"
    \<comment> \<open>\<open>float(s)\<close> on a str; \<open>None\<close> is ValueError\<close>
  naive_of_iso :: "string \<Rightarrow> int option"
    \<comment> \<open>\<open>datetime.fromisoformat(s).replace(tzinfo=None)\<close>; \<open>None\<close> is ValueError\<close>
  partition_of_iso :: "string \<Rightarrow> (string \<times> string) option"
    \<comment> \<open>\<open>datetime.fromisoformat(s)\<close> followed by \<open>strftime("%Y-%m-%d")\<close> and
        \<open>strftime("%H")\<close>; \<open>None\<close> is ValueError\<close>
  isoformat :: "int \<Rightarrow> string"
    \<comment> \<open>\<open>dt.isoformat()\<close> of a naive datetime\<close>
  str_of_float :: "real \<Rightarrow> string"
    \<comment> \<open>\<open>str(x)\<close> on a float\<close>
  utf8_decode :: "string \<Rightarrow> string option"
    \<comment> \<open>\<open>b.decode('utf-8')\<close>; \<open>None\<close> is UnicodeDecodeError\<close>
  fadd :: "real \<Rightarrow> real \<Rightarrow> real"
    \<comment> \<open>\<open>x + y\<close> on floats, rounded to float64\<close>
  fsub :: "real \<Rightarrow> real \<Rightarrow> real"
    \<comment> \<open>\<open>x - y\<close> on floats, rounded to float64\<close>
  fdiv :: "real \<Rightarrow> real \<Rightarrow> real"
    \<comment> \<open>\<open>x / y\<close> on floats, rounded to float64; the divisor is never 0 where it is used\<close>
  fsum :: "real list \<Rightarrow> real"
    \<comment> \<open>\<open>sum(xs)\<close> on a list of floats\<close>

fun ebind :: "'e + 'a \<Rightarrow> ('a \<Rightarrow> 'e + 'b) \<Rightarrow> 'e + 'b" where
  "ebind (Inl e) f = Inl e"
| "ebind (Inr x) f = f x"

definition py_float :: "pylib \<Rightarrow> pyval \<Rightarrow> py_error + real" where
  "py_float L v =
     (case v of
        PStr s \<Rightarrow> (case float_of_str L s of None \<Rightarrow> Inl ValueError | Some x \<Rightarrow> Inr x)
      | PFloat x \<Rightarrow> Inr x
      | PInt i \<Rightarrow> Inr (real_of_int i)
      | PNone \<Rightarrow> Inl TypeError)"

definition digit_char :: "nat \<Rightarrow> char" where
  "digit_char d = char_of (48 + d)"

fun str_nat :: "nat \<Rightarrow> string" where
  "str_nat n = (if n < 10 then [digit_char n] else str_nat (n div 10) @ [digit_char (n mod 10)])"

definition str_int :: "int \<Rightarrow> string" where
  "str_int i = (if i < 0 then CHR ''-'' # str_nat (nat (- i)) else str_nat (nat i))"

definition py_str :: "pylib \<Rightarrow> pyval \<Rightarrow> string" where
  "py_str L v =
     (case v of
        PStr s \<Rightarrow> s
      | PFloat x \<Rightarrow> str_of_float L x
      | PInt i \<Rightarrow> str_int i
      | PNone \<Rightarrow> ''None'')"

definition replace_Z :: "string \<Rightarrow> string" where
  \<comment> \<open>\<open>s.replace('Z', '+00:00')\<close>: every occurrence is replaced\<close>
  "replace_Z s = concat (map (\<lambda>c. if c = CHR ''Z'' then ''+00:00'' else [c]) s)"

definition timedelta_seconds :: "int \<Rightarrow> int" where
  "timedelta_seconds n = n * 1000000"

section \<open>Inference service\<close>

subsection \<open>reasons.py\<close>

definition get_float :: "pylib \<Rightarrow> (string \<rightharpoonup> pyval) \<Rightarrow> string \<Rightarrow> real \<Rightarrow> py_error + real" where
  \<comment> \<open>the inner helper of \<open>generate_reasons\<close>; only ValueError and TypeError are caught\<close>
  "get_float L user_features key dflt =
     (case py_float L (case user_features key of None \<Rightarrow> PFloat dflt | Some v \<Rightarrow> v) of
        Inr x \<Rightarrow> Inr x
      | Inl ValueError \<Rightarrow> Inr dflt
      | Inl TypeError \<Rightarrow> Inr dflt
      | Inl e \<Rightarrow> Inl e)"

definition priority_order :: "string list" where
  "priority_order =
     [''high_velocity_5m'', ''unusual_amount'', ''high_device_churn'',
      ''frequent_ip_changes'', ''high_merchant_velocity'', ''high_velocity_1h'']"

fun py_index :: "'a list \<Rightarrow> 'a \<Rightarrow> nat" where
  \<comment> \<open>\<open>xs.index(x)\<close>, called only when \<open>x in xs\<close>\<close>
  "py_index [] x = 0"
| "py_index (y # ys) x = (if y = x then 0 else Suc (py_index ys x))"

definition priority_key :: "string \<Rightarrow> nat" where
  "priority_key r =
     (if r \<in> set priority_order then py_index priority_order r else length priority_order)"

definition generate_reasons ::
  "pylib \<Rightarrow> (string \<rightharpoonup> pyval) \<Rightarrow> real \<Rightarrow> py_error + string list" where
  "generate_reasons L user_features risk_score =
     ebind (get_float L user_features ''txns_last_5m'' 0) (\<lambda>txns_5m.
     let reasons1 = (if txns_5m > 5 then [] @ [''high_velocity_5m''] else []) in
     ebind (get_float L user_features ''txns_last_1h'' 0) (\<lambda>txns_1h.
     let reasons2 = (if txns_1h > 20 then reasons1 @ [''high_velocity_1h''] else reasons1) in
     ebind (get_float L user_features ''avg_amount_1h'' 0) (\<lambda>avg_amount_1h.
     ebind (get_float L user_features ''amount_zscore'' 0) (\<lambda>amount_zscore.
     let reasons3 = (if avg_amount_1h > 0 \<and> amount_zscore > 3
                     then reasons2 @ [''unusual_amount''] else reasons2) in
     ebind (get_float L user_features ''device_churn_24h'' 0) (\<lambda>device_churn.
     let reasons4 = (if device_churn > 2 then reasons3 @ [''high_device_churn''] else reasons3) in
     ebind (get_float L user_features ''ip_changes_24h'' 0) (\<lambda>ip_changes.
     let reasons5 = (if ip_changes > 3 then reasons4 @ [''frequent_ip_changes''] else reasons4) in
     ebind (get_float L user_features ''merchant_velocity_1h'' 0) (\<lambda>merchant_velocity.
     let reasons6 = (if merchant_velocity > 5
                     then reasons5 @ [''high_merchant_velocity''] else reasons5);
         sorted_reasons = sort_key priority_key reasons6
     in Inr (if sorted_reasons \<noteq> [] then take 3 sorted_reasons
             else [''no_significant_indicators'']))))))))"

text \<open>
  The rule table of the specification, one predicate per code, over the numeric value of
  a feature (0 when the field is missing or not numeric).
\<close>

definition feature_value :: "pylib \<Rightarrow> (string \<rightharpoonup> pyval) \<Rightarrow> string \<Rightarrow> real" where
  "feature_value L m k =
     (case m k of
        None \<Rightarrow> 0
      | Some v \<Rightarrow> (case py_float L v of Inr x \<Rightarrow> x | Inl e \<Rightarrow> 0))"

definition spec_rule :: "pylib \<Rightarrow> (string \<rightharpoonup> pyval) \<Rightarrow> string \<Rightarrow> bool" where
  "spec_rule L m code =
     (if code = ''high_velocity_5m'' then feature_value L m ''txns_last_5m'' > 5
      else if code = ''high_velocity_1h'' then feature_value L m ''txns_last_1h'' > 20
      else if code = ''unusual_amount''
        then feature_value L m ''avg_amount_1h'' > 0 \<and> feature_value L m ''amount_zscore'' > 3
      else if code = ''high_device_churn'' then feature_value L m ''device_churn_24h'' > 2
      else if code = ''frequent_ip_changes'' then feature_value L m ''ip_changes_24h'' > 3
      else if code = ''high_merchant_velocity''
        then feature_value L m ''merchant_velocity_1h'' > 5
      else False)"

subsection \<open>feature_vector.py\<close>

definition feature_order :: "string list" where
  "feature_order =
     [''V1'', ''V2'', ''V3'', ''V4'', ''V5'', ''V6'', ''V7'', ''V8'', ''V9'', ''V10'',
      ''V11'', ''V12'', ''V13'', ''V14'', ''V15'', ''V16'', ''V17'', ''V18'', ''V19'', ''V20'',
      ''V21'', ''V22'', ''V23'', ''V24'', ''V25'', ''V26'', ''V27'', ''V28'',
      ''Amount_normalized'']"

fun build_loop ::
  "pylib \<Rightarrow> (string \<rightharpoonup> pyval) \<Rightarrow> string list \<Rightarrow> real list \<Rightarrow> py_error + real list" where
  "build_loop L user_features [] vector = Inr vector"
| "build_loop L user_features (feature_name # rest) vector =
     (let v = (case user_features feature_name of None \<Rightarrow> PFloat 0 | Some x \<Rightarrow> x) in
      case py_float L v of
        Inr x \<Rightarrow> build_loop L user_features rest (vector @ [x])
      | Inl ValueError \<Rightarrow> build_loop L user_features rest (vector @ [0])
      | Inl TypeError \<Rightarrow> build_loop L user_features rest (vector @ [0])
      | Inl e \<Rightarrow> Inl e)"

definition build_feature_vector ::
  "pylib \<Rightarrow> (string \<rightharpoonup> pyval) \<Rightarrow> py_error + real list list" where
  \<comment> \<open>the tensor \<open>torch.tensor([vector])\<close> is the list of its rows\<close>
  "build_feature_vector L user_features =
     ebind (build_loop L user_features feature_order []) (\<lambda>vector. Inr [vector])"

subsection \<open>app.py of the inference service\<close>

record prediction_response =
  user_id :: string
  risk_score :: real
  decision :: string
  reasons :: "string list"

record infer_env =
  model :: "real list list \<Rightarrow> py_error + real"
    \<comment> \<open>\<open>model(feature_vector).item()\<close>, the external scoring model\<close>
  hgetall :: "string \<Rightarrow> py_error + (string \<rightharpoonup> string)"
    \<comment> \<open>\<open>redis_client.hgetall(key)\<close> with \<open>decode_responses=True\<close>\<close>
  threshold_allow :: real
  threshold_block :: real

datatype http_error = HTTP500 py_error

fun default_loop :: "nat list \<Rightarrow> (string \<rightharpoonup> pyval) \<Rightarrow> (string \<rightharpoonup> pyval)" where
  "default_loop [] defaults = defaults"
| "default_loop (i # is) defaults = default_loop is (defaults(''V'' @ str_nat i \<mapsto> PFloat 0))"

definition get_default_features :: "string \<rightharpoonup> pyval" where
  "get_default_features =
     (default_loop [1..<29] Map.empty)(''Amount_normalized'' \<mapsto> PFloat 0)"

definition round_half_even :: "real \<Rightarrow> int" where
  "round_half_even x =
     (let f = \<lfloor>x\<rfloor>; d = x - of_int f in
      if d < 1 / 2 then f else if d > 1 / 2 then f + 1 else if even f then f else f + 1)"

definition py_round4 :: "real \<Rightarrow> real" where
  \<comment> \<open>\<open>round(x, 4)\<close>\<close>
  "py_round4 x = of_int (round_half_even (x * 10000)) / 10000"

definition decide :: "infer_env \<Rightarrow> real \<Rightarrow> string" where
  \<comment> \<open>the decision logic of \<open>predict\<close>\<close>
  "decide E r =
     (if r < threshold_allow E then ''allow''
      else if r < threshold_block E then ''step_up''
      else ''block'')"

definition predict :: "pylib \<Rightarrow> infer_env \<Rightarrow> string \<Rightarrow> http_error + prediction_response" where
  "predict L E uid =
     (let redis_key = ''features:user:'' @ uid in
      case hgetall E redis_key of
        Inl e \<Rightarrow> Inl (HTTP500 e)
      | Inr fetched \<Rightarrow>
          let (features, reasons0) =
                (if fetched = Map.empty then (get_default_features, [''missing_features''])
                 else (map_option PStr \<circ> fetched, []))
          in
          case build_feature_vector L features of
            Inl e \<Rightarrow> Inl (HTTP500 e)
          | Inr feature_vector \<Rightarrow>
              (case model E feature_vector of
                 Inl e \<Rightarrow> Inl (HTTP500 e)
               | Inr r \<Rightarrow>
                   (case (if reasons0 = [] then generate_reasons L features r else Inr reasons0) of
                      Inl e \<Rightarrow> Inl (HTTP500 e)
                    | Inr reasons1 \<Rightarrow>
                        Inr \<lparr>user_id = uid, risk_score = py_round4 r,
                             decision = decide E r, reasons = reasons1\<rparr>)))"

section \<open>Featurizer service\<close>

subsection \<open>EventWindow\<close>

text \<open>
  An event in the featurizer is the decoded log record, a dict from str to str. The
  deque of a window is a list, oldest insertion first.
\<close>

type_synonym event = "string \<rightharpoonup> string"

record event_window =
  events :: "event list"
  total_amount :: real
  amount_count :: int

definition new_window :: event_window where
  \<comment> \<open>\<open>EventWindow()\<close>\<close>
  "new_window = \<lparr>events = [], total_amount = 0, amount_count = 0\<rparr>"

definition event_ts :: "pylib \<Rightarrow> event \<Rightarrow> py_error + int" where
  \<comment> \<open>\<open>datetime.fromisoformat(e['ts'].replace('Z', '+00:00')).replace(tzinfo=None)\<close>\<close>
  "event_ts L e =
     (case e ''ts'' of
        None \<Rightarrow> Inl KeyError
      | Some s \<Rightarrow> (case naive_of_iso L (replace_Z s) of
                    None \<Rightarrow> Inl ValueError
                  | Some t \<Rightarrow> Inr t))"

definition add_event :: "pylib \<Rightarrow> event \<Rightarrow> event_window \<Rightarrow> event_window \<times> py_error option" where
  "add_event L e w =
     (let w1 = w\<lparr>events := events w @ [e]\<rparr> in
      case e ''amount'' of
        None \<Rightarrow> (w1, None)
      | Some a \<Rightarrow>
          (case float_of_str L a of
             None \<Rightarrow> (w1, Some ValueError)
           | Some x \<Rightarrow>
               (w1\<lparr>total_amount := fadd L (total_amount w1) x,
                   amount_count := amount_count w1 + 1\<rparr>, None)))"

fun get_recent_loop :: "pylib \<Rightarrow> int \<Rightarrow> event list \<Rightarrow> py_error + event list" where
  "get_recent_loop L cutoff [] = Inr []"
| "get_recent_loop L cutoff (e # es) =
     ebind (event_ts L e) (\<lambda>t.
     ebind (get_recent_loop L cutoff es) (\<lambda>r.
     Inr (if t \<ge> cutoff then e # r else r)))"

definition get_recent :: "pylib \<Rightarrow> int \<Rightarrow> int \<Rightarrow> event_window \<Rightarrow> py_error + event list" where
  "get_recent L seconds now w =
     (let cutoff = now - timedelta_seconds seconds in get_recent_loop L cutoff (events w))"

definition get_user_mean_amount :: "pylib \<Rightarrow> event_window \<Rightarrow> real" where
  "get_user_mean_amount L w =
     (if amount_count w > 0 then fdiv L (total_amount w) (real_of_int (amount_count w)) else 0)"

fun cleanup_loop ::
  "pylib \<Rightarrow> int \<Rightarrow> event list \<Rightarrow> real \<Rightarrow> int \<Rightarrow> event_window \<times> py_error option" where
  "cleanup_loop L cutoff [] tot cnt =
     (\<lparr>events = [], total_amount = tot, amount_count = cnt\<rparr>, None)"
| "cleanup_loop L cutoff (first_event # rest) tot cnt =
     (case event_ts L first_event of
        Inl err \<Rightarrow>
          (\<lparr>events = first_event # rest, total_amount = tot, amount_count = cnt\<rparr>, Some err)
      | Inr t \<Rightarrow>
          if t \<ge> cutoff
          then (\<lparr>events = first_event # rest, total_amount = tot, amount_count = cnt\<rparr>, None)
          else (case first_event ''amount'' of
                  None \<Rightarrow> cleanup_loop L cutoff rest tot cnt
                | Some a \<Rightarrow>
                    (case float_of_str L a of
                       None \<Rightarrow>
                         (\<lparr>events = rest, total_amount = tot, amount_count = cnt\<rparr>,
                          Some ValueError)
                     | Some x \<Rightarrow> cleanup_loop L cutoff rest (fsub L tot x) (cnt - 1))))"

definition cleanup_old ::
  "pylib \<Rightarrow> int \<Rightarrow> int \<Rightarrow> event_window \<Rightarrow> event_window \<times> py_error option" where
  "cleanup_old L cutoff_seconds now w =
     (let cutoff = now - timedelta_seconds cutoff_seconds in
      cleanup_loop L cutoff (events w) (total_amount w) (amount_count w))"

subsection \<open>Featurizer\<close>

fun map_err :: "('a \<Rightarrow> 'e + 'b) \<Rightarrow> 'a list \<Rightarrow> 'e + 'b list" where
  \<comment> \<open>a list comprehension whose element expression may raise\<close>
  "map_err f [] = Inr []"
| "map_err f (x # xs) = ebind (f x) (\<lambda>y. ebind (map_err f xs) (\<lambda>ys. Inr (y # ys)))"

definition amount_or_zero :: "pylib \<Rightarrow> event \<Rightarrow> py_error + real" where
  \<comment> \<open>\<open>float(e.get('amount', 0))\<close>\<close>
  "amount_or_zero L e =
     (case e ''amount'' of
        None \<Rightarrow> Inr 0
      | Some a \<Rightarrow> (case float_of_str L a of None \<Rightarrow> Inl ValueError | Some x \<Rightarrow> Inr x))"

definition get_or_empty :: "event \<Rightarrow> string \<Rightarrow> string" where
  \<comment> \<open>\<open>e.get(k, '')\<close>\<close>
  "get_or_empty e k = (case e k of None \<Rightarrow> [] | Some v \<Rightarrow> v)"

fun py_max :: "real list \<Rightarrow> real" where
  \<comment> \<open>\<open>max(xs)\<close>, called only on a non-empty list\<close>
  "py_max [] = 0"
| "py_max (x # xs) = fold max xs x"

fun changes :: "string list \<Rightarrow> nat" where
  \<comment> \<open>\<open>sum(1 for i in range(1, len(xs)) if xs[i] != xs[i-1])\<close>\<close>
  "changes [] = 0"
| "changes [x] = 0"
| "changes (x # y # zs) = (if y \<noteq> x then 1 else 0) + changes (y # zs)"

definition compute_features ::
  "pylib \<Rightarrow> event \<Rightarrow> event_window \<Rightarrow> int \<Rightarrow> py_error + (string \<rightharpoonup> pyval)" where
  "compute_features L event user_window now =
     ebind (get_recent L 300 now user_window) (\<lambda>events_5m.
     ebind (get_recent L 3600 now user_window) (\<lambda>events_1h.
     ebind (get_recent L 86400 now user_window) (\<lambda>events_24h.
     let txns_5m = length events_5m;
         txns_1h = length events_1h;
         txns_24h = length events_24h in
     ebind (map_err (amount_or_zero L) events_1h) (\<lambda>amounts_1h.
     ebind (map_err (amount_or_zero L) events_24h) (\<lambda>amounts_24h.
     let avg_amount_1h =
           (if amounts_1h \<noteq> []
            then fdiv L (fsum L amounts_1h) (real (length amounts_1h)) else 0);
         max_amount_24h = (if amounts_24h \<noteq> [] then py_max amounts_24h else 0);
         unique_devices_24h =
           length (remdups (map (\<lambda>e. get_or_empty e ''device_id'') events_24h));
         unique_ips_24h = length (remdups (map (\<lambda>e. get_or_empty e ''ip'') events_24h));
         user_mean = get_user_mean_amount L user_window in
     ebind (amount_or_zero L event) (\<lambda>current_amount.
     let amount_zscore =
           (if user_mean > 0
            then (if user_mean > 0
                  then fdiv L (fsub L current_amount user_mean) user_mean else 0)
            else 0);
         current_merchant = get_or_empty event ''merchant_id'';
         merchant_velocity_1h =
           length (filter (\<lambda>e. e ''merchant_id'' = Some current_merchant) events_1h);
         devices_24h = map (\<lambda>e. get_or_empty e ''device_id'') events_24h;
         device_churn_24h = changes devices_24h;
         ips_24h = map (\<lambda>e. get_or_empty e ''ip'') events_24h;
         ip_changes_24h = changes ips_24h
     in Inr (Map.empty
          (''txns_last_5m'' \<mapsto> PInt (int txns_5m),
           ''txns_last_1h'' \<mapsto> PInt (int txns_1h),
           ''txns_last_24h'' \<mapsto> PInt (int txns_24h),
           ''avg_amount_1h'' \<mapsto> PFloat avg_amount_1h,
           ''max_amount_24h'' \<mapsto> PFloat max_amount_24h,
           ''unique_devices_24h'' \<mapsto> PInt (int unique_devices_24h),
           ''unique_ips_24h'' \<mapsto> PInt (int unique_ips_24h),
           ''amount_zscore'' \<mapsto> PFloat amount_zscore,
           ''merchant_velocity_1h'' \<mapsto> PInt (int merchant_velocity_1h),
           ''device_churn_24h'' \<mapsto> PInt (int device_churn_24h),
           ''ip_changes_24h'' \<mapsto> PInt (int ip_changes_24h)))))))))"

text \<open>
  A raw log record is a dict from bytes to bytes, given by its items. The feature store
  is the hashes of Redis together with the time to live of each key, in seconds. The
  wall clock read by \<open>datetime.utcnow()\<close> and the outcome of \<open>pipe.execute()\<close> are the
  environment of one call. The Prometheus counters are not modelled.
\<close>

type_synonym raw_event = "(string \<times> string) list"

record featurizer =
  user_windows :: "string \<rightharpoonup> event_window"

record redis =
  hashes :: "string \<rightharpoonup> (string \<rightharpoonup> string)"
  ttls :: "string \<rightharpoonup> int"


record call_env =
  utcnow :: int
  execute_ok :: bool

fun decode_items :: "pylib \<Rightarrow> raw_event \<Rightarrow> event \<Rightarrow> py_error + event" where
  \<comment> \<open>\<open>{k.decode('utf-8'): v.decode('utf-8') for k, v in event_data.items()}\<close>\<close>
  "decode_items L [] ev = Inr ev"
| "decode_items L ((k, v) # kvs) ev =
     (case utf8_decode L k of
        None \<Rightarrow> Inl UnicodeDecodeError
      | Some k' \<Rightarrow>
          (case utf8_decode L v of
             None \<Rightarrow> Inl UnicodeDecodeError
           | Some v' \<Rightarrow> decode_items L kvs (ev(k' \<mapsto> v'))))"

fun original_loop ::
  "pylib \<Rightarrow> event \<Rightarrow> nat list \<Rightarrow> (string \<rightharpoonup> pyval) \<Rightarrow> py_error + (string \<rightharpoonup> pyval)" where
  "original_loop L event [] original_features = Inr original_features"
| "original_loop L event (i # is) original_features =
     (let v_key = ''V'' @ str_nat i in
      case event v_key of
        None \<Rightarrow> original_loop L event is original_features
      | Some s \<Rightarrow>
          (case float_of_str L s of
             None \<Rightarrow> Inl ValueError
           | Some x \<Rightarrow> original_loop L event is (original_features(v_key \<mapsto> PFloat x))))"

definition extract_original :: "pylib \<Rightarrow> event \<Rightarrow> py_error + (string \<rightharpoonup> pyval)" where
  "extract_original L event =
     ebind (original_loop L event [1..<29] Map.empty) (\<lambda>original_features.
     case event ''Amount_normalized'' of
       None \<Rightarrow> Inr original_features
     | Some s \<Rightarrow>
         (case float_of_str L s of
            None \<Rightarrow> Inl ValueError
          | Some x \<Rightarrow> Inr (original_features(''Amount_normalized'' \<mapsto> PFloat x))))"

definition write_features ::
  "pylib \<Rightarrow> call_env \<Rightarrow> string \<Rightarrow> (string \<rightharpoonup> pyval) \<Rightarrow> redis \<Rightarrow> redis \<times> py_error option" where
  \<comment> \<open>the pipeline: one \<open>hset\<close> per field, then \<open>expire\<close>, then \<open>execute\<close>\<close>
  "write_features L env redis_key all_features R =
     (if execute_ok env
      then (let old = (case hashes R redis_key of None \<Rightarrow> Map.empty | Some h \<Rightarrow> h) in
            (R\<lparr>hashes := (hashes R)(redis_key \<mapsto> old ++ (map_option (py_str L) \<circ> all_features)),
               ttls := (ttls R)(redis_key \<mapsto> 172800)\<rparr>, None))
      else (R, Some RedisError))"

definition process_event ::
  "pylib \<Rightarrow> call_env \<Rightarrow> raw_event \<Rightarrow> featurizer \<times> redis
     \<Rightarrow> (featurizer \<times> redis) \<times> py_error option" where
  "process_event L env event_data S =
     (let F = fst S; R = snd S in
      case decode_items L event_data Map.empty of
        Inl err \<Rightarrow> ((F, R), Some err)
      | Inr event \<Rightarrow>
     (case event ''user_id'' of
        None \<Rightarrow> ((F, R), None)
      | Some uid \<Rightarrow>
     if uid = [] then ((F, R), None)
     else
     let w0 = (case user_windows F uid of None \<Rightarrow> new_window | Some w \<Rightarrow> w);
         F1 = F\<lparr>user_windows := (user_windows F)(uid \<mapsto> w0)\<rparr>;
         now = utcnow env in
     case event_ts L event of
       Inl err \<Rightarrow> ((F1, R), Some err)
     | Inr ts \<Rightarrow>
     (case add_event L event w0 of
        (w1, Some err) \<Rightarrow> ((F\<lparr>user_windows := (user_windows F)(uid \<mapsto> w1)\<rparr>, R), Some err)
      | (w1, None) \<Rightarrow>
     (case cleanup_old L 172800 now w1 of
        (w2, Some err) \<Rightarrow> ((F\<lparr>user_windows := (user_windows F)(uid \<mapsto> w2)\<rparr>, R), Some err)
      | (w2, None) \<Rightarrow>
     let F2 = F\<lparr>user_windows := (user_windows F)(uid \<mapsto> w2)\<rparr> in
     case compute_features L event w2 now of
       Inl err \<Rightarrow> ((F2, R), Some err)
     | Inr behavioral_features \<Rightarrow>
     (case extract_original L event of
        Inl err \<Rightarrow> ((F2, R), Some err)
      | Inr original_features \<Rightarrow>
     \<comment> \<open>\<open>event['ts']\<close> is present here: it was read above\<close>
     let all_features =
           (original_features ++ behavioral_features)
             (''last_event_ts'' \<mapsto> PStr (get_or_empty event ''ts''),
              ''last_feature_update_ts'' \<mapsto> PStr (isoformat L now @ ''Z''));
         redis_key = ''features:user:'' @ uid
     in case write_features L env redis_key all_features R of
          (R', Some err) \<Rightarrow> ((F2, R'), Some err)
        | (R', None) \<Rightarrow> ((F2, R'), None))))))"

text \<open>
  The consumer loop. The event log is the list of its records with their identifiers,
  in increasing order; the identifiers are modelled as natural numbers and the initial
  cursor \<open>"0"\<close> as 0. The n-th call of \<open>process_event\<close> runs in the environment \<open>envs n\<close>.
\<close>

type_synonym stream = "(nat \<times> raw_event) list"

definition xread :: "stream \<Rightarrow> nat \<Rightarrow> nat \<Rightarrow> (nat \<times> raw_event) list" where
  \<comment> \<open>Modelled from the spec: the event log is not part of the repository;
      \<open>read_after(last_id, max_count, block_ms)\<close> returns up to \<open>max_count\<close> records
      with id greater than \<open>last_id\<close>.\<close>
  "xread slog cursor max_count = take max_count (filter (\<lambda>(i, d). cursor < i) slog)"

record consumer =
  last_id :: nat
  state :: "featurizer \<times> redis"
  calls :: nat

fun consume_batch ::
  "pylib \<Rightarrow> (nat \<Rightarrow> call_env) \<Rightarrow> (nat \<times> raw_event) list \<Rightarrow> consumer \<Rightarrow> consumer" where
  "consume_batch L envs [] C = C"
| "consume_batch L envs ((msg_id, event_data) # rest) C =
     (case process_event L (envs (calls C)) event_data (state C) of
        (S', Some err) \<Rightarrow>
          consume_batch L envs rest (C\<lparr>state := S', calls := calls C + 1\<rparr>)
      | (S', None) \<Rightarrow>
          consume_batch L envs rest (C\<lparr>state := S', calls := calls C + 1, last_id := msg_id\<rparr>))"

definition consume_iteration ::
  "pylib \<Rightarrow> (nat \<Rightarrow> call_env) \<Rightarrow> py_error + (nat \<times> raw_event) list \<Rightarrow> consumer \<Rightarrow> consumer" where
  \<comment> \<open>one pass of the \<open>while self.running\<close> loop, given what \<open>xread\<close> returned\<close>
  "consume_iteration L envs messages C =
     (case messages of
        Inl err \<Rightarrow> C
      | Inr stream_messages \<Rightarrow>
          if stream_messages = [] then C else consume_batch L envs stream_messages C)"

fun consume_events ::
  "pylib \<Rightarrow> (nat \<Rightarrow> call_env) \<Rightarrow> stream \<Rightarrow> nat \<Rightarrow> consumer \<Rightarrow> consumer" where
  \<comment> \<open>\<open>n\<close> passes of the loop over a log that does not change, every read succeeding\<close>
  "consume_events L envs slog 0 C = C"
| "consume_events L envs slog (Suc n) C =
     consume_events L envs slog n
       (consume_iteration L envs (Inr (xread slog (last_id C) 10)) C)"

definition new_consumer :: consumer where
  "new_consumer =
     \<lparr>last_id = 0,
      state = (\<lparr>user_windows = Map.empty\<rparr>, \<lparr>hashes = Map.empty, ttls = Map.empty\<rparr>),
      calls = 0\<rparr>"

section \<open>Ingest service: the Parquet writer\<close>

text \<open>
  A buffered event is the dict produced by \<open>model_dump()\<close>, from str to str or float.
  The files written so far are the blobs. \<open>add_event\<close> and \<open>flush\<close> are coroutines, but
  neither suspends between its first and its last statement: the lock is never held
  across an \<open>await\<close>, so acquiring it never waits, and the file is written by a
  synchronous call. An interleaving of calls is therefore a sequence of whole calls. What
  the file system does during one \<open>flush\<close> is the environment of that call.
\<close>

type_synonym wevent = "string \<rightharpoonup> pyval"

record blob =
  blob_path :: string
  blob_rows :: "wevent list"

record parquet_writer =
  base_path :: string
  flush_interval :: nat
  batch_size :: nat
  buffer :: "wevent list"

record flush_env =
  mkdir_ok :: bool
    \<comment> \<open>\<open>partition_path.mkdir(parents=True, exist_ok=True)\<close> did not raise\<close>
  write_ok :: bool
    \<comment> \<open>\<open>pa.Table.from_pylist\<close> and \<open>pq.write_table\<close> did not raise\<close>
  uuid_hex8 :: string
    \<comment> \<open>\<open>uuid.uuid4().hex[:8]\<close>\<close>

definition writer_add_event :: "wevent \<Rightarrow> parquet_writer \<Rightarrow> parquet_writer" where
  \<comment> \<open>\<open>ParquetWriter.add_event\<close>\<close>
  "writer_add_event e W = W\<lparr>buffer := buffer W @ [e]\<rparr>"

definition flush ::
  "pylib \<Rightarrow> flush_env \<Rightarrow> parquet_writer \<times> blob list
     \<Rightarrow> (parquet_writer \<times> blob list) \<times> (py_error + nat)" where
  "flush L env S =
     (let W = fst S; blobs = snd S in
      if buffer W = [] then ((W, blobs), Inr 0)
      else
      let events_to_flush = buffer W;
          W1 = W\<lparr>buffer := []\<rparr> in
      case events_to_flush of
        [] \<Rightarrow> ((W1, blobs), Inr 0)
      | first_event # rest \<Rightarrow>
     (case first_event ''ts'' of
        None \<Rightarrow> ((W1, blobs), Inl KeyError)
      | Some (PStr ts) \<Rightarrow>
          (case partition_of_iso L (replace_Z ts) of
             None \<Rightarrow> ((W1, blobs), Inl ValueError)
           | Some (date_str, hour_str) \<Rightarrow>
               let partition_path =
                     base_path W @ ''/events/dt='' @ date_str @ ''/hour='' @ hour_str;
                   filename = ''events-'' @ uuid_hex8 env @ ''.parquet'';
                   file_path = partition_path @ ''/'' @ filename
               in
               if \<not> mkdir_ok env then ((W1, blobs), Inl OSError)
               else if write_ok env
               then ((W1, blobs @ [\<lparr>blob_path = file_path, blob_rows = events_to_flush\<rparr>]),
                     Inr (length events_to_flush))
               else ((W1\<lparr>buffer := events_to_flush @ buffer W1\<rparr>, blobs), Inl ArrowError))
      | Some other \<Rightarrow> ((W1, blobs), Inl AttributeError)))"

datatype writer_call = Enqueue wevent | Flush flush_env

fun run_writer ::
  "pylib \<Rightarrow> writer_call list \<Rightarrow> parquet_writer \<times> blob list \<Rightarrow> parquet_writer \<times> blob list" where
  \<comment> \<open>a sequence of calls; an exception of \<open>flush\<close> goes to its caller and the writer
      lives on\<close>
  "run_writer L [] S = S"
| "run_writer L (Enqueue e # cs) S = run_writer L cs (writer_add_event e (fst S), snd S)"
| "run_writer L (Flush env # cs) S = run_writer L cs (fst (flush L env S))"

fun enqueued :: "writer_call list \<Rightarrow> wevent list" where
  "enqueued [] = []"
| "enqueued (Enqueue e # cs) = e # enqueued cs"
| "enqueued (Flush env # cs) = enqueued cs"

definition written :: "blob list \<Rightarrow> wevent list" where
  "written blobs = concat (map blob_rows blobs)"

definition new_writer :: parquet_writer where
  \<comment> \<open>\<open>ParquetWriter()\<close> with its default arguments\<close>
  "new_writer =
     \<lparr>base_path = ''./data/local-s3'', flush_interval = 10, batch_size = 100, buffer = []\<rparr>"

section \<open>Concrete inputs\<close>

text \<open>
  The values of the library functions at the strings and numbers used in the examples
  below: there \<open>float('50.0')\<close> is 50.0 and \<open>float('abc')\<close> raises, 2025-01-15T10:00:00
  is 1736935200 seconds after the epoch, and every string used is ASCII, which UTF-8
  decodes to itself. The sums, differences and quotients that the examples of \<open>lib0\<close>
  compute are exact in float64.
\<close>

definition lib0 :: pylib where
  "lib0 =
     \<lparr>float_of_str =
        map_of [(''50.0'', 50), (''100.0'', 100), (''150.0'', 150), (''0.0'', 0), (''1.0'', 1),
                (''3.0'', 3), (''1e+17'', 100000000000000000)],
      naive_of_iso =
        map_of [(''2025-01-15T10:00:00+00:00'', 1736935200000000),
                (''2025-01-13T09:00:00+00:00'', 1736758800000000)],
      partition_of_iso = map_of [(''2025-01-15T10:00:00+00:00'', (''2025-01-15'', ''10''))],
      isoformat =
        (\<lambda>t. if t = 1736935201000000 then ''2025-01-15T10:00:01''
             else if t = 1736758801000000 then ''2025-01-13T09:00:01'' else []),
      str_of_float =
        (\<lambda>x. if x = 0 then ''0.0'' else if x = 50 then ''50.0''
             else if x = 1 then ''1.0'' else if x = 1 / 2 then ''0.5'' else []),
      utf8_decode = Some,
      fadd = (+),
      fsub = (-),
      fdiv = (/),
      fsum = sum_list\<rparr>"


definition env0 :: infer_env where
  \<comment> \<open>a model that scores every vector 0.5, an empty feature store, the default thresholds\<close>
  "env0 =
     \<lparr>model = (\<lambda>v. Inr (1 / 2)),
      hgetall = (\<lambda>k. Inr Map.empty),
      threshold_allow = 3 / 10,
      threshold_block = 7 / 10\<rparr>"

section \<open>Notions used to state the properties\<close>

definition parsed_amounts :: "pylib \<Rightarrow> event list \<Rightarrow> real list" where
  \<comment> \<open>the amounts of the events that carry an \<open>amount\<close> field that \<open>float\<close> accepts\<close>
  "parsed_amounts L es =
     List.map_filter (\<lambda>e. case e ''amount'' of None \<Rightarrow> None | Some a \<Rightarrow> float_of_str L a) es"

definition aggregates_ok :: "pylib \<Rightarrow> event_window \<Rightarrow> bool" where
  "aggregates_ok L w \<longleftrightarrow>
     total_amount w = sum_list (parsed_amounts L (events w))
     \<and> amount_count w = int (length (parsed_amounts L (events w)))"

definition exact_arith :: "pylib \<Rightarrow> bool" where
  \<comment> \<open>a library whose float arithmetic does not round\<close>
  "exact_arith L \<longleftrightarrow>
     fadd L = (+) \<and> fsub L = (-) \<and> fdiv L = (/) \<and> fsum L = sum_list"


definition recent_event :: event where
  "recent_event =
     [''user_id'' \<mapsto> ''u1'', ''ts'' \<mapsto> ''2025-01-15T10:00:00Z'', ''amount'' \<mapsto> ''50.0'']"

definition stale_event :: event where
  \<comment> \<open>49 hours older than \<open>recent_event\<close>\<close>
  "stale_event =
     [''user_id'' \<mapsto> ''u1'', ''ts'' \<mapsto> ''2025-01-13T09:00:00Z'', ''amount'' \<mapsto> ''100.0'']"

definition bad_amount_event :: event where
  "bad_amount_event =
     [''user_id'' \<mapsto> ''u1'', ''ts'' \<mapsto> ''2025-01-15T10:00:00Z'', ''amount'' \<mapsto> ''abc'']"

definition windows_ok :: "pylib \<Rightarrow> featurizer \<Rightarrow> bool" where
  "windows_ok L F \<longleftrightarrow> (\<forall>uid w. user_windows F uid = Some w \<longrightarrow> aggregates_ok L w)"

definition raw_recent :: raw_event where
  \<comment> \<open>the log record that decodes to \<open>recent_event\<close>\<close>
  "raw_recent =
     [(''user_id'', ''u1''), (''ts'', ''2025-01-15T10:00:00Z''), (''amount'', ''50.0'')]"

definition raw_no_user :: raw_event where
  "raw_no_user = [(''ts'', ''2025-01-15T10:00:00Z''), (''amount'', ''50.0'')]"

definition raw_no_ts :: raw_event where
  \<comment> \<open>a record without \<open>ts\<close>: \<open>event['ts']\<close> raises KeyError\<close>
  "raw_no_ts = [(''user_id'', ''u1'')]"

definition ten_bad :: stream where
  \<comment> \<open>ten records that cannot be processed\<close>
  "ten_bad = map (\<lambda>i. (i, raw_no_ts)) [1, 2, 3, 4, 5, 6, 7, 8, 9, 10]"

definition stalled_log :: stream where
  \<comment> \<open>the ten records, then a good one\<close>
  "stalled_log = ten_bad @ [(11, raw_recent)]"

definition env1 :: call_env where
  \<comment> \<open>one second after the timestamp of \<open>recent_event\<close>, the store reachable\<close>
  "env1 = \<lparr>utcnow = 1736935201000000, execute_ok = True\<rparr>"

definition bad_ts_event :: wevent where
  \<comment> \<open>accepted by the ingest schema, where \<open>ts\<close> is any str\<close>
  "bad_ts_event =
     [''event_id'' \<mapsto> PStr ''e1'', ''ts'' \<mapsto> PStr ''not-a-timestamp'',
      ''user_id'' \<mapsto> PStr ''u1'', ''amount'' \<mapsto> PFloat 50]"

definition good_event :: wevent where
  "good_event =
     [''event_id'' \<mapsto> PStr ''e2'', ''ts'' \<mapsto> PStr ''2025-01-15T10:00:00Z'',
      ''user_id'' \<mapsto> PStr ''u1'', ''amount'' \<mapsto> PFloat 50]"

definition fs_ok :: flush_env where
  \<comment> \<open>a file system on which every operation succeeds\<close>
  "fs_ok = \<lparr>mkdir_ok = True, write_ok = True, uuid_hex8 = ''0a1b2c3d''\<rparr>"

definition raw_bad_amount :: raw_event where
  \<comment> \<open>the log record that decodes to \<open>bad_amount_event\<close>\<close>
  "raw_bad_amount =
     [(''user_id'', ''u1''), (''ts'', ''2025-01-15T10:00:00Z''), (''amount'', ''abc'')]"













section \<open>Theorems: inference service\<close>

subsection \<open>Reason codes\<close>

lemma get_float_value:
  "get_float L m k 0 = Inr (feature_value L m k)"
  by (simp add: get_float_def feature_value_def py_float_def
      split: option.splits pyval.splits sum.splits py_error.splits)

lemma priority_keys:
  "priority_key ''high_velocity_5m'' = 0"
  "priority_key ''unusual_amount'' = 1"
  "priority_key ''high_device_churn'' = 2"
  "priority_key ''frequent_ip_changes'' = 3"
  "priority_key ''high_merchant_velocity'' = 4"
  "priority_key ''high_velocity_1h'' = 5"
  by (simp_all add: priority_key_def priority_order_def)

lemma spec_rule_simps:
  "spec_rule L m ''high_velocity_5m'' = (feature_value L m ''txns_last_5m'' > 5)"
  "spec_rule L m ''high_velocity_1h'' = (feature_value L m ''txns_last_1h'' > 20)"
  "spec_rule L m ''unusual_amount'' =
     (feature_value L m ''avg_amount_1h'' > 0 \<and> feature_value L m ''amount_zscore'' > 3)"
  "spec_rule L m ''high_device_churn'' = (feature_value L m ''device_churn_24h'' > 2)"
  "spec_rule L m ''frequent_ip_changes'' = (feature_value L m ''ip_changes_24h'' > 3)"
  "spec_rule L m ''high_merchant_velocity'' = (feature_value L m ''merchant_velocity_1h'' > 5)"
  by (simp_all add: spec_rule_def)

text \<open>The codes in the order in which the source tests them.\<close>

lemma sort_test_order:
  "sort_key priority_key
     [''high_velocity_5m'', ''high_velocity_1h'', ''unusual_amount'', ''high_device_churn'',
      ''frequent_ip_changes'', ''high_merchant_velocity'']
   = priority_order"
  by (simp add: priority_order_def priority_keys)

lemma snoc_if: "(if b then xs @ [c] else xs) = xs @ (if b then [c] else [])"
  by simp

lemma filter_single: "filter P [c] = (if P c then [c] else [])"
  by simp

lemma test_order_split:
  "[''high_velocity_5m'', ''high_velocity_1h'', ''unusual_amount'', ''high_device_churn'',
    ''frequent_ip_changes'', ''high_merchant_velocity'']
   = [''high_velocity_5m''] @ [''high_velocity_1h''] @ [''unusual_amount'']
      @ [''high_device_churn''] @ [''frequent_ip_changes''] @ [''high_merchant_velocity'']"
  by simp

lemma generate_reasons_unsorted:
  "generate_reasons L m r =
     Inr (let s = sort_key priority_key (filter (spec_rule L m)
                    [''high_velocity_5m'', ''high_velocity_1h'', ''unusual_amount'',
                     ''high_device_churn'', ''frequent_ip_changes'',
                     ''high_merchant_velocity''])
          in if s \<noteq> [] then take 3 s else [''no_significant_indicators''])"
  unfolding test_order_split filter_append filter_single spec_rule_simps
  unfolding generate_reasons_def get_float_value ebind.simps
  by (simp only: snoc_if Let_def append_Nil append_assoc)

text \<open>
  C5. For every feature map, \<open>generate_reasons\<close> returns the codes whose predicate of the
  rule table holds, in the fixed priority order, cut to the first three; when no
  predicate holds it returns the one-element list \<open>no_significant_indicators\<close>.
\<close>

theorem generate_reasons_spec:
  "generate_reasons L m r =
     Inr (let hits = filter (spec_rule L m) priority_order in
          if hits = [] then [''no_significant_indicators''] else take 3 hits)"
proof -
  have "sort_key priority_key (filter (spec_rule L m)
          [''high_velocity_5m'', ''high_velocity_1h'', ''unusual_amount'',
           ''high_device_churn'', ''frequent_ip_changes'', ''high_merchant_velocity''])
        = filter (spec_rule L m) priority_order"
    by (simp only: filter_sort [symmetric] sort_test_order)
  then show ?thesis
    by (simp add: generate_reasons_unsorted Let_def)
qed

subsection \<open>Feature vector\<close>

lemma build_loop_value:
  "build_loop L uf ks acc = Inr (acc @ map (feature_value L uf) ks)"
proof (induction ks arbitrary: acc)
  case Nil
  show ?case by simp
next
  case (Cons k ks)
  show ?case
    by (simp add: Cons.IH feature_value_def py_float_def
        split: option.splits pyval.splits sum.splits py_error.splits)
qed

lemma build_feature_vector_value:
  "build_feature_vector L uf = Inr [map (feature_value L uf) feature_order]"
  by (simp add: build_feature_vector_def build_loop_value)

lemma feature_order_generated:
  "feature_order = map (\<lambda>i. ''V'' @ str_nat i) [1..<29] @ [''Amount_normalized'']"
  unfolding feature_order_def by code_simp

lemma length_feature_order: "length feature_order = 29"
  by (simp add: feature_order_def)

text \<open>
  C7. For every map \<open>m\<close> from str to str, the empty map included,
  \<open>build_feature_vector\<close> raises nothing and returns one row of 29 entries, which are,
  in the order V1, ..., V28, Amount_normalized, the float value of the field of that
  name, and 0.0 where the field is missing or is not numeric.
\<close>

theorem build_feature_vector_total:
  fixes m :: "string \<rightharpoonup> string"
  shows "build_feature_vector L (map_option PStr \<circ> m) =
           Inr [map (\<lambda>k. case m k of None \<Rightarrow> 0
                          | Some s \<Rightarrow> (case float_of_str L s of None \<Rightarrow> 0 | Some x \<Rightarrow> x))
                    (map (\<lambda>i. ''V'' @ str_nat i) [1..<29] @ [''Amount_normalized''])]
         \<and> length (map (\<lambda>i. ''V'' @ str_nat i) [1..<29] @ [''Amount_normalized'']) = 29"
proof -
  have "feature_value L (map_option PStr \<circ> m) =
          (\<lambda>k. case m k of None \<Rightarrow> 0
                | Some s \<Rightarrow> (case float_of_str L s of None \<Rightarrow> 0 | Some x \<Rightarrow> x))"
    by (rule ext) (simp add: feature_value_def py_float_def split: option.splits)
  then show ?thesis
    unfolding feature_order_generated [symmetric]
    by (simp add: build_feature_vector_value length_feature_order)
qed

subsection \<open>predict\<close>

lemma default_loop_lookup:
  "default_loop ns d k =
     (if k \<in> (\<lambda>i. ''V'' @ str_nat i) ` set ns then Some (PFloat 0) else d k)"
  by (induction ns arbitrary: d) (auto simp del: str_nat.simps)

lemma default_features_lookup:
  "get_default_features k = (if k \<in> set feature_order then Some (PFloat 0) else None)"
  by (auto simp: get_default_features_def default_loop_lookup feature_order_generated
      simp del: str_nat.simps)

lemma default_feature_value: "feature_value L get_default_features = (\<lambda>k. 0)"
  by (rule ext) (simp add: feature_value_def default_features_lookup py_float_def)

lemma default_vector: "build_feature_vector L get_default_features = Inr [replicate 29 0]"
  by (simp add: build_feature_vector_value default_feature_value map_replicate_const
      length_feature_order)

lemma predict_Inr:
  assumes "predict L E uid = Inr resp"
  shows "\<exists>v r. model E v = Inr r \<and> risk_score resp = py_round4 r \<and> decision resp = decide E r"
proof -
  from assms obtain fetched where f: "hgetall E (''features:user:'' @ uid) = Inr fetched"
    by (auto simp: predict_def Let_def split: sum.splits)
  define features where "features =
     (if fetched = Map.empty then get_default_features else map_option PStr \<circ> fetched)"
  from assms f obtain fv where v: "build_feature_vector L features = Inr fv"
    by (auto simp: predict_def Let_def features_def split: sum.splits if_splits)
  from assms f v obtain r where r: "model E fv = Inr r"
    by (auto simp: predict_def Let_def features_def split: sum.splits if_splits)
  from assms f v r have "risk_score resp = py_round4 r \<and> decision resp = decide E r"
    by (auto simp: predict_def Let_def features_def split: sum.splits if_splits)
  with r show ?thesis by blast
qed

lemma decide_iff:
  assumes "threshold_allow E < threshold_block E"
  shows "(decide E r = ''allow'' \<longleftrightarrow> r < threshold_allow E)
       \<and> (decide E r = ''step_up'' \<longleftrightarrow> threshold_allow E \<le> r \<and> r < threshold_block E)
       \<and> (decide E r = ''block'' \<longleftrightarrow> threshold_block E \<le> r)
       \<and> decide E r \<in> {''allow'', ''step_up'', ''block''}"
  using assms by (auto simp: decide_def)

lemma predict_env0:
  "predict lib0 env0 ''unknown'' =
     Inr \<lparr>user_id = ''unknown'', risk_score = py_round4 (1 / 2), decision = ''step_up'',
          reasons = [''missing_features'']\<rparr>"
  by (simp add: predict_def env0_def default_vector decide_def)

text \<open>
  C6. With \<open>threshold_allow < threshold_block\<close>, a successful \<open>predict\<close> answers for the
  score \<open>r\<close> that the model returned: the decision is \<open>allow\<close> exactly when
  \<open>r < threshold_allow\<close>, \<open>step_up\<close> exactly when \<open>threshold_allow \<le> r < threshold_block\<close>,
  \<open>block\<close> exactly when \<open>r \<ge> threshold_block\<close>, and it is always one of the three.
\<close>

theorem predict_decision:
  assumes "threshold_allow E < threshold_block E"
    and "predict L E uid = Inr resp"
  shows "\<exists>v r. model E v = Inr r \<and> risk_score resp = py_round4 r
           \<and> (decision resp = ''allow'' \<longleftrightarrow> r < threshold_allow E)
           \<and> (decision resp = ''step_up'' \<longleftrightarrow> threshold_allow E \<le> r \<and> r < threshold_block E)
           \<and> (decision resp = ''block'' \<longleftrightarrow> threshold_block E \<le> r)
           \<and> decision resp \<in> {''allow'', ''step_up'', ''block''}"
proof -
  from predict_Inr [OF assms(2)] obtain v r where
    m: "model E v = Inr r" and s: "risk_score resp = py_round4 r"
    and d: "decision resp = decide E r"
    by blast
  have "(decision resp = ''allow'' \<longleftrightarrow> r < threshold_allow E)
      \<and> (decision resp = ''step_up'' \<longleftrightarrow> threshold_allow E \<le> r \<and> r < threshold_block E)
      \<and> (decision resp = ''block'' \<longleftrightarrow> threshold_block E \<le> r)
      \<and> decision resp \<in> {''allow'', ''step_up'', ''block''}"
    unfolding d by (rule decide_iff [OF assms(1)])
  with m s show ?thesis by blast
qed

theorem predict_decision_witness:
  "threshold_allow env0 < threshold_block env0
   \<and> predict lib0 env0 ''unknown'' =
       Inr \<lparr>user_id = ''unknown'', risk_score = py_round4 (1 / 2), decision = ''step_up'',
            reasons = [''missing_features'']\<rparr>
   \<and> (\<exists>v r. model env0 v = Inr r
        \<and> (''step_up'' = ''allow'' \<longleftrightarrow> r < threshold_allow env0)
        \<and> (threshold_allow env0 \<le> r \<and> r < threshold_block env0)
        \<and> (''step_up'' = ''block'' \<longleftrightarrow> threshold_block env0 \<le> r))"
proof -
  have h1: "threshold_allow env0 < threshold_block env0"
    by (simp add: env0_def)
  from predict_decision [OF h1 predict_env0] h1 predict_env0 show ?thesis
    by auto
qed

text \<open>
  C8. When \<open>hgetall\<close> returns the empty map for the key of the user and the model
  returns a score for the vector, \<open>predict\<close> succeeds: the vector it scores is built
  from the default feature set, in which each of the 29 model features is 0.0, and the
  reasons are exactly \<open>missing_features\<close>, whatever the reason-code rules would give.
\<close>

theorem predict_missing_features:
  assumes "hgetall E (''features:user:'' @ uid) = Inr Map.empty"
    and "model E [replicate 29 0] = Inr r"
  shows "predict L E uid =
           Inr \<lparr>user_id = uid, risk_score = py_round4 r, decision = decide E r,
                reasons = [''missing_features'']\<rparr>
         \<and> build_feature_vector L get_default_features = Inr [replicate 29 0]
         \<and> map get_default_features feature_order = replicate 29 (Some (PFloat 0))"
proof -
  have "map get_default_features feature_order = replicate 29 (Some (PFloat 0))"
    by (simp add: default_features_lookup map_replicate_const length_feature_order
        cong: map_cong)
  with assms show ?thesis
    by (simp add: predict_def default_vector)
qed

theorem predict_missing_features_witness:
  "hgetall env0 (''features:user:'' @ ''unknown'') = Inr Map.empty
   \<and> model env0 [replicate 29 0] = Inr (1 / 2)
   \<and> predict lib0 env0 ''unknown'' =
       Inr \<lparr>user_id = ''unknown'', risk_score = py_round4 (1 / 2),
            decision = decide env0 (1 / 2), reasons = [''missing_features'']\<rparr>"
proof -
  have h1: "hgetall env0 (''features:user:'' @ ''unknown'') = Inr Map.empty"
    by (simp add: env0_def)
  have h2: "model env0 [replicate 29 0] = Inr (1 / 2)"
    by (simp add: env0_def)
  from predict_missing_features [OF h1 h2, of lib0] h1 h2 show ?thesis
    by simp
qed

section \<open>Theorems: the window of a user\<close>

lemma parsed_amounts_simps:
  "parsed_amounts L [] = []"
  "parsed_amounts L (e # es) =
     (case e ''amount'' of
        None \<Rightarrow> parsed_amounts L es
      | Some a \<Rightarrow> (case float_of_str L a of
                    None \<Rightarrow> parsed_amounts L es
                  | Some x \<Rightarrow> x # parsed_amounts L es))"
  by (simp_all add: parsed_amounts_def List.map_filter_simps split: option.splits)

lemma parsed_amounts_append:
  "parsed_amounts L (es @ fs) = parsed_amounts L es @ parsed_amounts L fs"
  by (simp add: parsed_amounts_def List.map_filter_def)

text \<open>
  With a library whose arithmetic does not round, the aggregates of a window equal the
  sum and the number of the retained amounts after every operation, also after one that
  raises.
\<close>

lemma add_event_aggregates:
  assumes "exact_arith L" and "aggregates_ok L w"
  shows "aggregates_ok L (fst (add_event L e w))"
  using assms
  by (simp add: exact_arith_def aggregates_ok_def add_event_def Let_def
      parsed_amounts_append parsed_amounts_simps split: option.splits)

lemma cleanup_loop_aggregates:
  assumes "exact_arith L"
    and "t = sum_list (parsed_amounts L es)" and "c = int (length (parsed_amounts L es))"
  shows "aggregates_ok L (fst (cleanup_loop L cutoff es t c))"
  using assms(2,3)
proof (induction es arbitrary: t c)
  case Nil
  then show ?case by (simp add: aggregates_ok_def parsed_amounts_simps)
next
  case (Cons e es)
  show ?case
  proof (cases "event_ts L e")
    case (Inl err)
    with Cons.prems show ?thesis by (simp add: aggregates_ok_def)
  next
    case (Inr ts)
    show ?thesis
    proof (cases "ts \<ge> cutoff")
      case True
      with Inr Cons.prems show ?thesis by (simp add: aggregates_ok_def)
    next
      case False
      show ?thesis
      proof (cases "e ''amount''")
        case None
        with Inr False Cons.prems Cons.IH [of t c] show ?thesis
          by (simp add: parsed_amounts_simps)
      next
        case (Some a)
        show ?thesis
        proof (cases "float_of_str L a")
          case None
          with Some Inr False Cons.prems show ?thesis
            by (simp add: aggregates_ok_def parsed_amounts_simps)
        next
          case (Some x)
          with \<open>e ''amount'' = Some a\<close> Inr False Cons.prems Cons.IH [of "t - x" "c - 1"]
            assms(1)
          show ?thesis
            by (simp add: parsed_amounts_simps exact_arith_def)
        qed
      qed
    qed
  qed
qed

lemma cleanup_old_aggregates:
  assumes "exact_arith L" and "aggregates_ok L w"
  shows "aggregates_ok L (fst (cleanup_old L secs now w))"
  using assms unfolding cleanup_old_def Let_def
  by (intro cleanup_loop_aggregates) (simp_all add: aggregates_ok_def)


lemma lib0_simps:
  "float_of_str lib0 ''50.0'' = Some 50"
  "float_of_str lib0 ''100.0'' = Some 100"
  "float_of_str lib0 ''abc'' = None"
  "float_of_str lib0 ''150.0'' = Some 150"
  "float_of_str lib0 ''1.0'' = Some 1"
  "float_of_str lib0 ''3.0'' = Some 3"
  "float_of_str lib0 ''1e+17'' = Some 100000000000000000"
  "naive_of_iso lib0 ''2025-01-15T10:00:00+00:00'' = Some 1736935200000000"
  "naive_of_iso lib0 ''2025-01-13T09:00:00+00:00'' = Some 1736758800000000"
  "utf8_decode lib0 = Some"
  "fadd lib0 = (+)"
  "fsub lib0 = (-)"
  "fdiv lib0 = (/)"
  "fsum lib0 = sum_list"
  by (simp_all add: lib0_def)


lemma replace_Z_examples:
  "replace_Z ''2025-01-15T10:00:00Z'' = ''2025-01-15T10:00:00+00:00''"
  "replace_Z ''2025-01-13T09:00:00Z'' = ''2025-01-13T09:00:00+00:00''"
  by (simp_all add: replace_Z_def)

lemma recent_facts:
  "recent_event ''ts'' = Some ''2025-01-15T10:00:00Z''"
  "recent_event ''amount'' = Some ''50.0''"
  "event_ts lib0 recent_event = Inr 1736935200000000"
  by (simp_all add: recent_event_def event_ts_def replace_Z_examples lib0_simps)

lemma stale_facts:
  "stale_event ''ts'' = Some ''2025-01-13T09:00:00Z''"
  "stale_event ''amount'' = Some ''100.0''"
  "event_ts lib0 stale_event = Inr 1736758800000000"
  by (simp_all add: stale_event_def event_ts_def replace_Z_examples lib0_simps)

lemma bad_amount_facts:
  "bad_amount_event ''ts'' = Some ''2025-01-15T10:00:00Z''"
  "bad_amount_event ''amount'' = Some ''abc''"
  "bad_amount_event ''user_id'' = Some ''u1''"
  "event_ts lib0 bad_amount_event = Inr 1736935200000000"
  by (simp_all add: bad_amount_event_def event_ts_def replace_Z_examples lib0_simps)

text \<open>
  C3. \<open>add_event\<close> appends the event before it converts the amount. For an event whose
  \<open>amount\<close> field is not a number, \<open>float\<close> raises after the append: the event is
  retained and carries an amount field, yet \<open>amount_count\<close> stays 0.
\<close>

theorem add_event_unparsable_amount:
  "add_event lib0 bad_amount_event new_window =
     (\<lparr>events = [bad_amount_event], total_amount = 0, amount_count = 0\<rparr>, Some ValueError)
   \<and> length (filter (\<lambda>e. e ''amount'' \<noteq> None) [bad_amount_event]) = 1
   \<and> process_event lib0 env1 raw_bad_amount (state new_consumer) =
       ((\<lparr>user_windows =
            [''u1'' \<mapsto> \<lparr>events = [bad_amount_event], total_amount = 0, amount_count = 0\<rparr>]\<rparr>,
         \<lparr>hashes = Map.empty, ttls = Map.empty\<rparr>), Some ValueError)"
proof -
  have a: "add_event lib0 bad_amount_event new_window =
     (\<lparr>events = [bad_amount_event], total_amount = 0, amount_count = 0\<rparr>, Some ValueError)"
    by (simp add: add_event_def new_window_def bad_amount_facts lib0_simps)
  have d: "decode_items lib0 raw_bad_amount Map.empty = Inr bad_amount_event"
    by (simp add: raw_bad_amount_def bad_amount_event_def lib0_simps)
  have "process_event lib0 env1 raw_bad_amount (state new_consumer) =
       ((\<lparr>user_windows =
            [''u1'' \<mapsto> \<lparr>events = [bad_amount_event], total_amount = 0, amount_count = 0\<rparr>]\<rparr>,
         \<lparr>hashes = Map.empty, ttls = Map.empty\<rparr>), Some ValueError)"
    by (simp add: process_event_def d bad_amount_facts a new_consumer_def Let_def)
  with a show ?thesis
    by (simp add: bad_amount_facts)
qed


lemma cleanup_loop_head:
  assumes "cleanup_loop L cutoff es t c = (w', None)" and "events w' = f # rest"
  shows "\<exists>ts. event_ts L f = Inr ts \<and> cutoff \<le> ts"
  using assms
proof (induction es arbitrary: t c)
  case Nil
  then show ?case by auto
next
  case (Cons e es)
  show ?case
  proof (cases "event_ts L e")
    case (Inl err)
    with Cons.prems show ?thesis by simp
  next
    case (Inr ts)
    show ?thesis
    proof (cases "ts \<ge> cutoff")
      case True
      with Inr Cons.prems show ?thesis by auto
    next
      case False
      with Inr Cons.prems Cons.IH show ?thesis
        by (auto split: option.splits)
    qed
  qed
qed

lemma map_err_member:
  assumes "map_err f xs = Inr ys" and "x \<in> set xs"
  shows "\<exists>y\<in>set ys. f x = Inr y"
  using assms
proof (induction xs arbitrary: ys)
  case Nil
  then show ?case by simp
next
  case (Cons a xs)
  from Cons.prems(1) obtain y ys' where
    a: "f a = Inr y" and r: "map_err f xs = Inr ys'" and ys: "ys = y # ys'"
    by (cases "f a"; cases "map_err f xs") auto
  from Cons.prems(2) have "x = a \<or> x \<in> set xs" by simp
  then show ?case
  proof
    assume "x = a"
    with a ys show ?thesis by simp
  next
    assume "x \<in> set xs"
    from Cons.IH [OF r this] ys show ?thesis by auto
  qed
qed

lemma cleanup_loop_sorted:
  assumes "map_err (event_ts L) es = Inr tss" and "sorted tss"
    and "cleanup_loop L cutoff es t c = (w', None)"
  shows "\<forall>x\<in>set (events w'). \<exists>ts. event_ts L x = Inr ts \<and> cutoff \<le> ts"
  using assms
proof (induction es arbitrary: tss t c)
  case Nil
  then show ?case by auto
next
  case (Cons e es)
  from Cons.prems(1) obtain ts tss' where
    e: "event_ts L e = Inr ts" and r: "map_err (event_ts L) es = Inr tss'"
    and tss: "tss = ts # tss'"
    by (cases "event_ts L e"; cases "map_err (event_ts L) es") auto
  from Cons.prems(2) tss have le: "\<forall>u\<in>set tss'. ts \<le> u" and s': "sorted tss'"
    by simp_all
  show ?case
  proof (cases "ts \<ge> cutoff")
    case True
    with e Cons.prems(3) have w': "events w' = e # es" by auto
    show ?thesis
    proof
      fix x assume "x \<in> set (events w')"
      with w' have "x = e \<or> x \<in> set es" by simp
      then show "\<exists>ts. event_ts L x = Inr ts \<and> cutoff \<le> ts"
      proof
        assume "x = e"
        with e True show ?thesis by simp
      next
        assume "x \<in> set es"
        from map_err_member [OF r this] obtain u where
          "u \<in> set tss'" and "event_ts L x = Inr u" by blast
        with le True show ?thesis by fastforce
      qed
    qed
  next
    case False
    with e Cons.prems(3) obtain t' c' where "cleanup_loop L cutoff es t' c' = (w', None)"
      by (auto split: option.splits)
    from Cons.IH [OF r s' this] show ?thesis .
  qed
qed

text \<open>
  C4, as the code has it. When the insertion and the eviction pass return normally, the
  first retained event, if there is one, has a timestamp of at least \<open>now\<close> minus 48
  hours; and when the timestamps of the window are in non-decreasing order, every
  retained event has.
\<close>

theorem eviction_bound:
  assumes "add_event L e w = (w1, None)"
    and "cleanup_old L 172800 now w1 = (w2, None)"
  shows "(\<forall>first rest. events w2 = first # rest \<longrightarrow>
            (\<exists>ts. event_ts L first = Inr ts \<and> now - timedelta_seconds 172800 \<le> ts))
       \<and> (\<forall>tss. map_err (event_ts L) (events w1) = Inr tss \<and> sorted tss \<longrightarrow>
            (\<forall>x\<in>set (events w2).
               \<exists>ts. event_ts L x = Inr ts \<and> now - timedelta_seconds 172800 \<le> ts))"
proof -
  from assms(2) have c:
    "cleanup_loop L (now - timedelta_seconds 172800) (events w1) (total_amount w1)
       (amount_count w1) = (w2, None)"
    by (simp add: cleanup_old_def Let_def)
  show ?thesis
  proof (intro conjI allI impI)
    fix first rest assume "events w2 = first # rest"
    from cleanup_loop_head [OF c this]
    show "\<exists>ts. event_ts L first = Inr ts \<and> now - timedelta_seconds 172800 \<le> ts" .
  next
    fix tss assume "map_err (event_ts L) (events w1) = Inr tss \<and> sorted tss"
    then have m: "map_err (event_ts L) (events w1) = Inr tss" and s: "sorted tss"
      by simp_all
    from cleanup_loop_sorted [OF m s c]
    show "\<forall>x\<in>set (events w2).
            \<exists>ts. event_ts L x = Inr ts \<and> now - timedelta_seconds 172800 \<le> ts" .
  qed
qed

lemma add_recent:
  "add_event lib0 recent_event new_window =
     (\<lparr>events = [recent_event], total_amount = 50, amount_count = 1\<rparr>, None)"
  by (simp add: add_event_def new_window_def recent_facts lib0_simps)

lemma cleanup_recent:
  "cleanup_old lib0 172800 1736935201000000
     \<lparr>events = [recent_event], total_amount = 50, amount_count = 1\<rparr> =
     (\<lparr>events = [recent_event], total_amount = 50, amount_count = 1\<rparr>, None)"
  by (simp add: cleanup_old_def timedelta_seconds_def recent_facts)

theorem eviction_bound_witness:
  "add_event lib0 recent_event new_window =
     (\<lparr>events = [recent_event], total_amount = 50, amount_count = 1\<rparr>, None)
   \<and> cleanup_old lib0 172800 1736935201000000
       \<lparr>events = [recent_event], total_amount = 50, amount_count = 1\<rparr> =
       (\<lparr>events = [recent_event], total_amount = 50, amount_count = 1\<rparr>, None)
   \<and> map_err (event_ts lib0) [recent_event] = Inr [1736935200000000]
   \<and> sorted [1736935200000000 :: int]
   \<and> (\<exists>ts. event_ts lib0 recent_event = Inr ts
         \<and> 1736935201000000 - timedelta_seconds 172800 \<le> ts)"
proof -
  have m: "map_err (event_ts lib0) [recent_event] = Inr [1736935200000000]"
    by (simp add: recent_facts)
  from eviction_bound [OF add_recent cleanup_recent] m add_recent cleanup_recent
  show ?thesis by simp
qed

text \<open>
  The claim as stated fails when an event arrives out of timestamp order: after a recent
  event, an event 49 hours older is inserted; the eviction pass stops at the recent
  event at the head and the older one stays.
\<close>

theorem eviction_keeps_stale_event:
  "add_event lib0 stale_event \<lparr>events = [recent_event], total_amount = 50, amount_count = 1\<rparr> =
     (\<lparr>events = [recent_event, stale_event], total_amount = 150, amount_count = 2\<rparr>, None)
   \<and> cleanup_old lib0 172800 1736935201000000
       \<lparr>events = [recent_event, stale_event], total_amount = 150, amount_count = 2\<rparr> =
       (\<lparr>events = [recent_event, stale_event], total_amount = 150, amount_count = 2\<rparr>, None)
   \<and> event_ts lib0 stale_event = Inr 1736758800000000
   \<and> (1736758800000000 :: int) < 1736935201000000 - timedelta_seconds 172800"
  by (simp add: add_event_def cleanup_old_def timedelta_seconds_def recent_facts
      stale_facts lib0_simps)

section \<open>Theorems: processing one event\<close>

text \<open>
  C10. For a record whose decoded field map has no \<open>user_id\<close> or an empty one,
  \<open>process_event\<close> returns without raising and changes neither the windows nor the
  feature store: no hash and no time to live is written.
\<close>

theorem process_event_without_user:
  assumes "decode_items L event_data Map.empty = Inr event"
    and "event ''user_id'' = None \<or> event ''user_id'' = Some []"
  shows "process_event L env event_data (F, R) = ((F, R), None)"
  using assms by (auto simp: process_event_def)

lemma decode_no_user:
  "decode_items lib0 raw_no_user Map.empty =
     Inr [''ts'' \<mapsto> ''2025-01-15T10:00:00Z'', ''amount'' \<mapsto> ''50.0'']"
  by (simp add: raw_no_user_def lib0_simps)

theorem process_event_without_user_witness:
  "decode_items lib0 raw_no_user Map.empty =
     Inr [''ts'' \<mapsto> ''2025-01-15T10:00:00Z'', ''amount'' \<mapsto> ''50.0'']
   \<and> [''ts'' \<mapsto> ''2025-01-15T10:00:00Z'', ''amount'' \<mapsto> ''50.0''] ''user_id'' = None
   \<and> process_event lib0 env1 raw_no_user (state new_consumer) = (state new_consumer, None)"
proof -
  have n: "[''ts'' \<mapsto> ''2025-01-15T10:00:00Z'', ''amount'' \<mapsto> ''50.0''] ''user_id'' = None
           \<or> [''ts'' \<mapsto> ''2025-01-15T10:00:00Z'', ''amount'' \<mapsto> ''50.0''] ''user_id''
               = Some []"
    by simp
  from process_event_without_user [OF decode_no_user n, of env1
      "fst (state new_consumer)" "snd (state new_consumer)"] decode_no_user
  show ?thesis by simp
qed

subsection \<open>Without rounding, the aggregates of every window stay consistent\<close>

lemma windows_ok_upd:
  assumes "windows_ok L F" and "aggregates_ok L w"
  shows "windows_ok L (F\<lparr>user_windows := (user_windows F)(uid \<mapsto> w)\<rparr>)"
  using assms by (simp add: windows_ok_def)

lemma new_window_ok: "aggregates_ok L new_window"
  by (simp add: aggregates_ok_def new_window_def parsed_amounts_simps)

lemma process_event_windows_ok:
  assumes ex: "exact_arith L" and "windows_ok L (fst S)"
  shows "windows_ok L (fst (fst (process_event L env event_data S)))"
proof -
  obtain F R where S: "S = (F, R)" by (cases S)
  with assms have F: "windows_ok L F" by simp
  show ?thesis
  proof (cases "decode_items L event_data Map.empty")
    case (Inl err)
    with F S show ?thesis by (simp add: process_event_def)
  next
    case (Inr event)
    show ?thesis
    proof (cases "event ''user_id''")
      case None
      with Inr F S show ?thesis by (simp add: process_event_def)
    next
      case (Some uid)
      show ?thesis
      proof (cases "uid = []")
        case True
        with Some Inr F S show ?thesis by (simp add: process_event_def)
      next
        case False
        define w0 where "w0 = (case user_windows F uid of None \<Rightarrow> new_window | Some w \<Rightarrow> w)"
        have w0: "aggregates_ok L w0"
          using F by (auto simp: w0_def windows_ok_def new_window_ok split: option.splits)
        show ?thesis
        proof (cases "event_ts L event")
          case (Inl err)
          with Inr Some False S windows_ok_upd [OF F w0] show ?thesis
            by (simp add: process_event_def w0_def [symmetric] Let_def)
        next
          case ts: (Inr ts)
          obtain w1 r1 where a: "add_event L event w0 = (w1, r1)"
            by (cases "add_event L event w0")
          from add_event_aggregates [OF ex w0, of event] a have w1: "aggregates_ok L w1"
            by simp
          show ?thesis
          proof (cases r1)
            case (Some err)
            with a ts Inr \<open>event ''user_id'' = Some uid\<close> False S windows_ok_upd [OF F w1]
            show ?thesis
              by (simp add: process_event_def w0_def [symmetric] Let_def)
          next
            case None
            obtain w2 r2 where c: "cleanup_old L 172800 (utcnow env) w1 = (w2, r2)"
              by (cases "cleanup_old L 172800 (utcnow env) w1")
            from cleanup_old_aggregates [OF ex w1, of 172800 "utcnow env"] c
            have w2: "aggregates_ok L w2" by simp
            from None a c ts Inr \<open>event ''user_id'' = Some uid\<close> False S
              windows_ok_upd [OF F w2]
            show ?thesis
              by (simp add: process_event_def w0_def [symmetric] Let_def
                  split: sum.splits prod.splits option.splits)
          qed
        qed
      qed
    qed
  qed
qed

lemma consume_batch_windows_ok:
  assumes ex: "exact_arith L" and "windows_ok L (fst (state C))"
  shows "windows_ok L (fst (state (consume_batch L envs msgs C)))"
  using assms(2)
proof (induction msgs arbitrary: C)
  case Nil
  then show ?case by simp
next
  case (Cons m msgs)
  obtain msg_id event_data where m: "m = (msg_id, event_data)" by (cases m)
  obtain S' r where p: "process_event L (envs (calls C)) event_data (state C) = (S', r)"
    by (cases "process_event L (envs (calls C)) event_data (state C)")
  from process_event_windows_ok [OF ex Cons.prems, of "envs (calls C)" event_data] p
  have "windows_ok L (fst S')" by simp
  with m p Cons.IH show ?case
    by (cases r) simp_all
qed

lemma new_consumer_windows_ok: "windows_ok L (fst (state new_consumer))"
  by (simp add: new_consumer_def windows_ok_def)

subsection \<open>The published z-score\<close>








subsection \<open>Examples of processed events\<close>










subsection \<open>The running total drifts from the sum of the retained amounts\<close>









section \<open>Theorems: the consumer loop\<close>

lemma decode_no_ts: "decode_items lib0 raw_no_ts Map.empty = Inr [''user_id'' \<mapsto> ''u1'']"
  by (simp add: raw_no_ts_def lib0_simps)

lemma process_no_ts:
  "process_event lib0 env raw_no_ts (F, R) =
     ((F\<lparr>user_windows := (user_windows F)
           (''u1'' \<mapsto> (case user_windows F ''u1'' of None \<Rightarrow> new_window | Some w \<Rightarrow> w))\<rparr>,
       R), Some KeyError)"
  by (simp add: process_event_def decode_no_ts event_ts_def Let_def)

lemma bad_batch:
  assumes "\<forall>m\<in>set msgs. snd m = raw_no_ts"
  shows "last_id (consume_batch lib0 envs msgs C) = last_id C
       \<and> snd (state (consume_batch lib0 envs msgs C)) = snd (state C)"
  using assms
proof (induction msgs arbitrary: C)
  case Nil
  show ?case by simp
next
  case (Cons m msgs)
  obtain msg_id where m: "m = (msg_id, raw_no_ts)"
    using Cons.prems by (cases m) simp
  obtain F R where S: "state C = (F, R)" by (cases "state C")
  from Cons.prems have "\<forall>m\<in>set msgs. snd m = raw_no_ts" by simp
  from Cons.IH [OF this] m S show ?case
    by (simp add: process_no_ts)
qed

text \<open>
  C2. A log that holds one record without \<open>ts\<close>: processing it raises KeyError, the
  \<open>continue\<close> of the handler skips the assignment to \<open>last_id\<close>, and after any number
  of passes the cursor is still 0, so the next read returns the same record again.
\<close>

theorem cursor_stays_before_bad_record:
  "last_id (consume_events lib0 envs [(1, raw_no_ts)] n new_consumer) = 0
   \<and> xread [(1, raw_no_ts)]
        (last_id (consume_events lib0 envs [(1, raw_no_ts)] n new_consumer)) 10
      = [(1, raw_no_ts)]"
proof -
  have "last_id C = 0 \<Longrightarrow> last_id (consume_events lib0 envs [(1, raw_no_ts)] n C) = 0" for C
  proof (induction n arbitrary: C)
    case 0
    then show ?case by simp
  next
    case (Suc n)
    have "last_id (consume_iteration lib0 envs (Inr (xread [(1, raw_no_ts)] (last_id C) 10)) C)
            = 0"
      using Suc.prems bad_batch [of "[(1, raw_no_ts)]" envs C]
      by (simp add: consume_iteration_def xread_def)
    from Suc.IH [OF this] show ?case by simp
  qed
  then have "last_id (consume_events lib0 envs [(1, raw_no_ts)] n new_consumer) = 0"
    by (simp add: new_consumer_def)
  then show ?thesis by (simp add: xread_def)
qed

text \<open>
  Ten such records in a row fill every batch of ten: the cursor never moves and the
  good record behind them is never processed, so nothing is ever published.
\<close>

lemma ten_bad_facts:
  "\<forall>m\<in>set ten_bad. snd m = raw_no_ts"
  "filter (\<lambda>(i, d). 0 < i) ten_bad = ten_bad"
  "length ten_bad = 10"
  "ten_bad \<noteq> []"
  by (simp_all add: ten_bad_def)

lemma xread_stalled: "xread stalled_log 0 10 = ten_bad"
  by (simp add: xread_def stalled_log_def ten_bad_facts)

theorem ten_bad_records_stall:
  "last_id (consume_events lib0 envs stalled_log n new_consumer) = 0
   \<and> hashes (snd (state (consume_events lib0 envs stalled_log n new_consumer))) = Map.empty"
proof -
  have "last_id C = 0 \<Longrightarrow>
        last_id (consume_events lib0 envs stalled_log n C) = 0
        \<and> snd (state (consume_events lib0 envs stalled_log n C)) = snd (state C)" for C
  proof (induction n arbitrary: C)
    case 0
    then show ?case by simp
  next
    case (Suc n)
    let ?C = "consume_iteration lib0 envs (Inr (xread stalled_log (last_id C) 10)) C"
    have "?C = consume_batch lib0 envs ten_bad C"
      using Suc.prems by (simp add: consume_iteration_def xread_stalled ten_bad_facts)
    with bad_batch [OF ten_bad_facts(1), of envs C]
    have b: "last_id ?C = last_id C \<and> snd (state ?C) = snd (state C)"
      by simp
    with Suc.prems have "last_id ?C = 0" by simp
    from Suc.IH [OF this] b show ?case by simp
  qed
  from this [of new_consumer] show ?thesis
    by (simp add: new_consumer_def)
qed

section \<open>Theorems: the Parquet writer\<close>

text \<open>
  What \<open>flush\<close> does when it gets as far as the write: on success the snapshot becomes
  one blob and the buffer is empty; when the write raises, the snapshot is back in the
  buffer in its order and the error is raised. In both cases no event is lost or
  duplicated.
\<close>

lemma flush_conserves:
  assumes "flush L env (W, blobs) = ((W', blobs'), r)"
    and "r = Inl ArrowError \<or> (\<exists>n. r = Inr n)"
  shows "mset (written blobs') + mset (buffer W') = mset (written blobs) + mset (buffer W)"
  using assms
  by (auto simp: flush_def written_def Let_def
      split: if_splits list.splits option.splits pyval.splits prod.splits)

lemma flush_failed_write:
  assumes "buffer W = first_event # rest" and "first_event ''ts'' = Some (PStr ts)"
    and "partition_of_iso L (replace_Z ts) = Some p"
    and "mkdir_ok env" and "\<not> write_ok env"
  shows "flush L env (W, blobs) = ((W, blobs), Inl ArrowError)"
  using assms by (cases p) (simp add: flush_def Let_def)

text \<open>
  When creating the partition directory raises, the snapshot is lost: the statement is
  outside the \<open>try\<close> block that puts the events back.
\<close>

lemma flush_failed_mkdir:
  assumes "buffer W = first_event # rest" and "first_event ''ts'' = Some (PStr ts)"
    and "partition_of_iso L (replace_Z ts) = Some p"
    and "\<not> mkdir_ok env"
  shows "flush L env (W, blobs) = ((W\<lparr>buffer := []\<rparr>, blobs), Inl OSError)"
  using assms by (cases p) (simp add: flush_def Let_def)

text \<open>
  C1. Two events are enqueued, the first with a \<open>ts\<close> that \<open>fromisoformat\<close> rejects,
  and the buffer is flushed on a file system where nothing fails. The partition of the
  batch is computed after the buffer was cleared and outside the \<open>try\<close> block, so the
  ValueError leaves the buffer empty and no blob written: both events are lost.
\<close>

theorem flush_bad_ts_loses_batch:
  "flush lib0 fs_ok (new_writer\<lparr>buffer := [bad_ts_event, good_event]\<rparr>, []) =
     ((new_writer, []), Inl ValueError)
   \<and> run_writer lib0 [Enqueue bad_ts_event, Enqueue good_event, Flush fs_ok] (new_writer, [])
       = (new_writer, [])
   \<and> mset (written []) + mset (buffer new_writer)
       \<noteq> mset (enqueued [Enqueue bad_ts_event, Enqueue good_event, Flush fs_ok])"
proof -
  have t: "bad_ts_event ''ts'' = Some (PStr ''not-a-timestamp'')"
    by (simp add: bad_ts_event_def)
  have z: "replace_Z ''not-a-timestamp'' = ''not-a-timestamp''"
    by (simp add: replace_Z_def)
  have p: "partition_of_iso lib0 ''not-a-timestamp'' = None"
    by (simp add: lib0_def)
  have f: "flush lib0 fs_ok (new_writer\<lparr>buffer := [bad_ts_event, good_event]\<rparr>, []) =
             ((new_writer, []), Inl ValueError)"
    by (simp add: flush_def Let_def t z p new_writer_def)
  then show ?thesis
    by (simp add: writer_add_event_def new_writer_def written_def)
qed

end
